theory Spec2Isabelle
  imports Main "HOL-Library.AList"
begin

section \<open>Python string primitives used by the document processors\<close>

text \<open>
  Texts are modelled as \<^typ>\<open>string\<close>: sequences of 8-bit characters, so a text is a
  Python \<^verbatim>\<open>str\<close> whose code points are below 256. \<^verbatim>\<open>len\<close> is \<^const>\<open>length\<close>.
  Positions are \<^typ>\<open>int\<close>, since the chunking loop can drive \<^verbatim>\<open>start\<close> below zero
  and Python then counts from the end of the text.
\<close>

definition py_isspace :: "char \<Rightarrow> bool" where
  \<comment> \<open>\<^verbatim>\<open>str.isspace\<close> on one character below 256: TAB, LF, VT, FF, CR, FS, GS, RS, US,
      SPACE, NEL, NBSP.\<close>
  "py_isspace c = ((of_char c :: nat) \<in> set [9, 10, 11, 12, 13, 28, 29, 30, 31, 32, 133, 160])"

definition py_strip :: "string \<Rightarrow> string" where
  \<comment> \<open>\<^verbatim>\<open>s.strip()\<close>: leading and trailing whitespace removed.\<close>
  "py_strip s = rev (dropWhile py_isspace (rev (dropWhile py_isspace s)))"

definition py_adjust_index :: "nat \<Rightarrow> int \<Rightarrow> nat" where
  \<comment> \<open>How slicing and \<^verbatim>\<open>rfind\<close> read a bound \<^verbatim>\<open>i\<close> on a string of length \<^verbatim>\<open>n\<close>:
      a negative bound counts from the end, and the result is clipped to \<^verbatim>\<open>[0, n]\<close>.\<close>
  "py_adjust_index n i =
     (if i < 0 then (if i + int n < 0 then 0 else nat (i + int n))
      else if int n < i then n else nat i)"

definition py_slice :: "string \<Rightarrow> int \<Rightarrow> int \<Rightarrow> string" where
  \<comment> \<open>\<^verbatim>\<open>s[a:b]\<close>; empty when the adjusted \<^verbatim>\<open>b\<close> is not beyond the adjusted \<^verbatim>\<open>a\<close>.\<close>
  "py_slice s a b =
     (let lo = py_adjust_index (length s) a; hi = py_adjust_index (length s) b
      in take (hi - lo) (drop lo s))"

primrec rindex :: "char \<Rightarrow> string \<Rightarrow> int" where
  \<comment> \<open>Highest position of \<^verbatim>\<open>c\<close> in the string, or -1.\<close>
  "rindex c [] = -1"
| "rindex c (x # xs) =
     (if 0 \<le> rindex c xs then rindex c xs + 1 else if x = c then 0 else -1)"

definition py_rfind :: "string \<Rightarrow> char \<Rightarrow> int \<Rightarrow> int \<Rightarrow> int" where
  \<comment> \<open>\<^verbatim>\<open>s.rfind(c, a, b)\<close> for a one-character \<^verbatim>\<open>c\<close>: the highest index of \<^verbatim>\<open>c\<close> within
      \<^verbatim>\<open>s[a:b]\<close> as an index of \<^verbatim>\<open>s\<close>, or -1.\<close>
  "py_rfind s c a b =
     (let lo = py_adjust_index (length s) a; r = rindex c (py_slice s a b)
      in if r < 0 then -1 else int lo + r)"

definition py_or :: "int option \<Rightarrow> int \<Rightarrow> int" where
  \<comment> \<open>\<^verbatim>\<open>x or d\<close> for \<^verbatim>\<open>x: Optional[int]\<close>: both \<^verbatim>\<open>None\<close> and \<^verbatim>\<open>0\<close> are falsy.\<close>
  "py_or x d = (case x of None \<Rightarrow> d | Some v \<Rightarrow> if v = 0 then d else v)"

definition py_lower :: "string \<Rightarrow> string" where
  \<comment> \<open>\<^verbatim>\<open>s.lower()\<close> on characters below 256: A-Z and the Latin-1 capitals.\<close>
  "py_lower s =
     map (\<lambda>c. let n = (of_char c :: nat) in
            if (65 \<le> n \<and> n \<le> 90) \<or> (192 \<le> n \<and> n \<le> 222 \<and> n \<noteq> 215)
            then char_of (n + 32) else c) s"

definition py_replace :: "string \<Rightarrow> char \<Rightarrow> char \<Rightarrow> string" where
  \<comment> \<open>\<^verbatim>\<open>s.replace(a, b)\<close> for one-character \<^verbatim>\<open>a\<close> and \<^verbatim>\<open>b\<close>.\<close>
  "py_replace s a b = map (\<lambda>c. if c = a then b else c) s"

fun py_join :: "string \<Rightarrow> string list \<Rightarrow> string" where
  \<comment> \<open>\<^verbatim>\<open>sep.join(xs)\<close>\<close>
  "py_join sep [] = []"
| "py_join sep [x] = x"
| "py_join sep (x # y # ys) = x @ sep @ py_join sep (y # ys)"

fun str_nat :: "nat \<Rightarrow> string" where
  \<comment> \<open>\<^verbatim>\<open>str(n)\<close> of a non-negative integer: its decimal digits.\<close>
  "str_nat n =
     (if n < 10 then [char_of (48 + n)]
      else str_nat (n div 10) @ [char_of (48 + n mod 10)])"

declare str_nat.simps [simp del]

section \<open>Configuration\<close>

record settings =
  chunk_size :: int
  chunk_overlap :: int

definition tiny_settings :: settings where
  \<comment> \<open>A configuration with one-character chunks and no overlap.\<close>
  "tiny_settings = \<lparr>chunk_size = 1, chunk_overlap = 0\<rparr>"

definition default_settings :: settings where
  \<comment> \<open>The values of \<^verbatim>\<open>CHUNK_SIZE\<close> and \<^verbatim>\<open>CHUNK_OVERLAP\<close> when the environment sets none.\<close>
  "default_settings = \<lparr>chunk_size = 1000, chunk_overlap = 200\<rparr>"

section \<open>The chunker\<close>

definition window_end :: "string \<Rightarrow> int \<Rightarrow> int \<Rightarrow> int" where
  \<comment> \<open>The value of \<^verbatim>\<open>end\<close> when the chunk is cut: the raw window edge, or just after the last
      period or newline of the window when the edge is inside the text and that character
      lies after \<^verbatim>\<open>start\<close>.\<close>
  "window_end text csize start =
     (let end_pos = start + csize in
      if end_pos < int (length text) then
        (let last_period = py_rfind text (CHR ''.'') start end_pos;
             last_newline = py_rfind text (CHR 0x0A) start end_pos;
             break_point = max last_period last_newline
         in if break_point > start then break_point + 1 else end_pos)
      else end_pos)"

partial_function (option) chunk_loop ::
  "string \<Rightarrow> int \<Rightarrow> int \<Rightarrow> int \<Rightarrow> string list \<Rightarrow> string list option" where
  "chunk_loop text csize coverlap start chunks =
     (if start < int (length text) then
        chunk_loop text csize coverlap (window_end text csize start - coverlap)
          (chunks @ [py_strip (py_slice text start (window_end text csize start))])
      else Some chunks)"

declare chunk_loop.simps [code]

definition chunk_text :: "settings \<Rightarrow> string \<Rightarrow> int option \<Rightarrow> int option \<Rightarrow> string list option" where
  \<comment> \<open>\<^verbatim>\<open>chunk_text(text, chunk_size, chunk_overlap)\<close>; \<^const>\<open>None\<close> is a loop that never ends.\<close>
  "chunk_text cfg text size_arg overlap_arg =
     (let csize = py_or size_arg (chunk_size cfg);
          coverlap = py_or overlap_arg (chunk_overlap cfg)
      in if int (length text) \<le> csize then Some [text]
         else chunk_loop text csize coverlap 0 [])"

section \<open>The world outside the program\<close>

datatype exn = PyException string
  \<comment> \<open>A raised Python exception (any subclass of \<^verbatim>\<open>Exception\<close>), with its message.\<close>

record path =
  \<comment> \<open>A \<^verbatim>\<open>pathlib.Path\<close>, by the attributes the code reads.\<close>
  path_str :: string
  name :: string
  stem :: string
  suffix :: string

datatype mval = MStr string | MInt int
  \<comment> \<open>A scalar metadata value.\<close>

type_synonym metadata = "(string \<times> mval) list"
  \<comment> \<open>A Python dictionary with string keys, as its items in insertion order; \<^const>\<open>map_of\<close>
      looks a key up, \<^const>\<open>AList.update\<close> is \<^verbatim>\<open>d[k] = v\<close>, and \<^verbatim>\<open>[]\<close> is the empty
      dictionary.\<close>

definition dict_update :: "metadata \<Rightarrow> metadata \<Rightarrow> metadata" where
  \<comment> \<open>\<^verbatim>\<open>d.update(other)\<close>, and \<^verbatim>\<open>{**d, **other}\<close> on a copy: the items of \<^verbatim>\<open>other\<close> are
      stored one by one.\<close>
  "dict_update d other = fold (\<lambda>(k, v). AList.update k v) other d"

type_synonym embedding = "int list"
  \<comment> \<open>An embedding vector; its numbers are never inspected.\<close>

record add_request =
  \<comment> \<open>The keyword arguments of \<^verbatim>\<open>collection.add\<close>.\<close>
  req_documents :: "string list"
  req_embeddings :: "embedding list"
  req_metadatas :: "metadata list"
  req_ids :: "string list"

type_synonym collection = "add_request list"
  \<comment> \<open>The index behind the vector store, as the batches it holds.\<close>

record env =
  \<comment> \<open>\<^verbatim>\<open>PdfReader(file_path)\<close> raises or gives the pages; \<^verbatim>\<open>page.extract_text()\<close> raises or gives
      the text of the page.\<close>
  pdf_reader :: "path \<Rightarrow> exn + (exn + string) list"
  \<comment> \<open>\<^verbatim>\<open>Document(file_path)\<close> raises or gives the texts of the paragraphs.\<close>
  docx_document :: "path \<Rightarrow> exn + string list"
  \<comment> \<open>\<^verbatim>\<open>open(file_path, "r", encoding="utf-8")\<close> and \<^verbatim>\<open>f.read()\<close>.\<close>
  read_file :: "path \<Rightarrow> exn + string"
  \<comment> \<open>\<^verbatim>\<open>file_path.stat().st_size\<close>\<close>
  stat_size :: "path \<Rightarrow> exn + int"
  \<comment> \<open>\<^verbatim>\<open>convert_from_path(file_path, dpi=300)\<close>: raises or gives the page images.\<close>
  convert_from_path :: "path \<Rightarrow> exn + nat list"
  \<comment> \<open>\<^verbatim>\<open>pytesseract.image_to_string(image, lang='eng')\<close>\<close>
  image_to_string :: "nat \<Rightarrow> exn + string"
  \<comment> \<open>\<^verbatim>\<open>embedding_model.encode(texts)\<close>\<close>
  encode :: "string list \<Rightarrow> exn + embedding list"
  \<comment> \<open>\<^verbatim>\<open>collection.add(...)\<close>: the collection afterwards, and the exception when it raises.\<close>
  collection_add :: "collection \<Rightarrow> add_request \<Rightarrow> exn option \<times> collection"
  \<comment> \<open>\<^verbatim>\<open>collection.count()\<close>\<close>
  collection_count :: "collection \<Rightarrow> nat"
  \<comment> \<open>\<^verbatim>\<open>directory.glob(pattern)\<close> and \<^verbatim>\<open>directory.rglob(pattern)\<close>\<close>
  glob :: "path \<Rightarrow> string \<Rightarrow> path list"
  rglob :: "path \<Rightarrow> string \<Rightarrow> path list"

section \<open>DocumentProcessor: text extraction\<close>

fun pdf_pages_loop :: "(exn + string) list \<Rightarrow> nat \<Rightarrow> string \<Rightarrow> string" where
  \<comment> \<open>The loop over \<^verbatim>\<open>enumerate(reader.pages, 1)\<close>: a page whose extraction raises is skipped.\<close>
  "pdf_pages_loop [] page_num acc = acc"
| "pdf_pages_loop (pg # pgs) page_num acc =
     (case pg of
        Inl e \<Rightarrow> pdf_pages_loop pgs (page_num + 1) acc
      | Inr page_text \<Rightarrow>
          pdf_pages_loop pgs (page_num + 1)
            (acc @ [CHR 0x0A, CHR 0x0A] @ ''--- Page '' @ str_nat page_num @ '' ---''
               @ [CHR 0x0A, CHR 0x0A] @ page_text))"

definition pdf_page_text :: "nat \<Rightarrow> exn + string \<Rightarrow> string" where
  \<comment> \<open>What page \<^verbatim>\<open>page_num\<close> adds to the text: its marker and its text, or nothing when
      its extraction raises.\<close>
  "pdf_page_text page_num pg =
     (case pg of
        Inl e \<Rightarrow> []
      | Inr page_text \<Rightarrow>
          [CHR 0x0A, CHR 0x0A] @ ''--- Page '' @ str_nat page_num @ '' ---''
            @ [CHR 0x0A, CHR 0x0A] @ page_text)"

definition extract_text_from_pdf :: "env \<Rightarrow> path \<Rightarrow> exn + string" where
  "extract_text_from_pdf e p =
     (case pdf_reader e p of
        Inl ex \<Rightarrow> Inr []
      | Inr pages \<Rightarrow> Inr (pdf_pages_loop pages 1 []))"

definition extract_text_from_docx :: "env \<Rightarrow> path \<Rightarrow> exn + string" where
  "extract_text_from_docx e p =
     (case docx_document e p of
        Inl ex \<Rightarrow> Inr []
      | Inr paragraphs \<Rightarrow> Inr (py_join [CHR 0x0A] paragraphs))"

definition extract_text_from_txt :: "env \<Rightarrow> path \<Rightarrow> exn + string" where
  "extract_text_from_txt e p =
     (case read_file e p of
        Inl ex \<Rightarrow> Inr []
      | Inr t \<Rightarrow> Inr t)"

definition extract_text :: "env \<Rightarrow> path \<Rightarrow> exn + string" where
  "extract_text e p =
     (let sfx = py_lower (suffix p) in
      if sfx = ''.pdf'' then extract_text_from_pdf e p
      else if sfx \<in> set [''.docx'', ''.doc''] then extract_text_from_docx e p
      else if sfx = ''.txt'' then extract_text_from_txt e p
      else Inr [])"

section \<open>DocumentProcessor: process\_document\<close>

record doc_data =
  \<comment> \<open>The dictionary \<^verbatim>\<open>process_document\<close> returns.\<close>
  doc_file_path :: string
  doc_file_name :: string
  doc_text :: string
  doc_chunks :: "string list"
  doc_metadata :: metadata

definition process_document :: "settings \<Rightarrow> env \<Rightarrow> path \<Rightarrow> (exn + doc_data) option" where
  \<comment> \<open>\<^const>\<open>None\<close>: the chunking loop never ends. \<^const>\<open>Inl\<close>: an exception leaves the function.\<close>
  "process_document cfg e p =
     (case extract_text e p of
        Inl ex \<Rightarrow> Some (Inl ex)
      | Inr t \<Rightarrow>
          if t = [] then
            Some (Inr \<lparr>doc_file_path = path_str p, doc_file_name = name p, doc_text = [],
                       doc_chunks = [], doc_metadata = []\<rparr>)
          else
            (case chunk_text cfg t None None of
               None \<Rightarrow> None
             | Some cs \<Rightarrow>
                 (case stat_size e p of
                    Inl ex \<Rightarrow> Some (Inl ex)
                  | Inr sz \<Rightarrow>
                      Some (Inr \<lparr>doc_file_path = path_str p, doc_file_name = name p,
                                 doc_text = t, doc_chunks = cs,
                                 doc_metadata =
                                   [(''file_name'', MStr (name p)),
                                    (''file_type'', MStr (suffix p)),
                                    (''file_size'', MInt sz),
                                    (''num_chunks'', MInt (int (length cs))),
                                    (''text_length'', MInt (int (length t)))]\<rparr>))))"

section \<open>DocumentProcessorWithOCR: PDF extraction with the OCR fallback\<close>

record ocr_processor =
  use_ocr :: bool
  ocr_threshold :: int

definition default_ocr_processor :: ocr_processor where
  \<comment> \<open>The defaults of \<^verbatim>\<open>__init__\<close>.\<close>
  "default_ocr_processor = \<lparr>use_ocr = True, ocr_threshold = 100\<rparr>"






section \<open>VectorStore\<close>

record vector_store =
  collection :: collection
  \<comment> \<open>The calls of \<^verbatim>\<open>add_documents\<close> so far, each with its arguments
      \<^verbatim>\<open>(chunks, metadatas, ids)\<close>.\<close>
  add_calls :: "(string list \<times> metadata list option \<times> string list option) list"

definition add_documents ::
  "env \<Rightarrow> vector_store \<Rightarrow> string list \<Rightarrow> metadata list option \<Rightarrow> string list option
     \<Rightarrow> (exn + int) \<times> vector_store" where
  "add_documents e vs chunks metadatas ids =
     (let vs1 = vs\<lparr>add_calls := add_calls vs @ [(chunks, metadatas, ids)]\<rparr> in
      if chunks = [] then (Inr 0, vs1)
      else
        (let ids1 = (case ids of
                       None \<Rightarrow> map (\<lambda>i. ''chunk_'' @ str_nat (collection_count e (collection vs1) + i))
                                 [0 ..< length chunks]
                     | Some l \<Rightarrow> l);
             metadatas1 = (case metadatas of
                             None \<Rightarrow> map (\<lambda>_. []) chunks
                           | Some l \<Rightarrow> l)
         in case encode e chunks of
              Inl ex \<Rightarrow> (Inl ex, vs1)
            | Inr embeddings \<Rightarrow>
                (case collection_add e (collection vs1)
                        \<lparr>req_documents = chunks, req_embeddings = embeddings,
                         req_metadatas = metadatas1, req_ids = ids1\<rparr> of
                   (Some ex, c) \<Rightarrow> (Inl ex, vs1\<lparr>collection := c\<rparr>)
                 | (None, c) \<Rightarrow> (Inr (int (length chunks)), vs1\<lparr>collection := c\<rparr>))))"

section \<open>DocumentIngestionPipeline\<close>

record pipeline_state =
  \<comment> \<open>What a call of the pipeline can change: the vector store, and the dictionary object the
      caller passed as \<^verbatim>\<open>metadata\<close> (\<^const>\<open>None\<close> when the argument is \<^verbatim>\<open>None\<close>).\<close>
  vector_store :: vector_store
  caller_metadata :: "metadata option"

definition pipeline_metadata :: "path \<Rightarrow> doc_data \<Rightarrow> metadata" where
  \<comment> \<open>The dictionary literal passed to \<^verbatim>\<open>base_metadata.update\<close>.\<close>
  "pipeline_metadata p d =
     dict_update [(''source_file'', MStr (name p)), (''file_type'', MStr (suffix p))]
       (doc_metadata d)"

definition chunk_ids :: "path \<Rightarrow> nat \<Rightarrow> string list" where
  \<comment> \<open>\<^verbatim>\<open>[f"{file_id}_chunk_{i}" for i in range(n)]\<close>\<close>
  "chunk_ids p n =
     (let file_id = py_replace (stem p) (CHR '' '') (CHR ''_'')
      in map (\<lambda>i. file_id @ ''_chunk_'' @ str_nat i) [0 ..< n])"

definition ingest_file ::
  "settings \<Rightarrow> env \<Rightarrow> pipeline_state \<Rightarrow> path \<Rightarrow> ((exn + int) \<times> pipeline_state) option" where
  \<comment> \<open>\<^verbatim>\<open>ingest_file(file_path, metadata)\<close>. \<^verbatim>\<open>metadata or {}\<close> is the caller's own dictionary
      when that is neither \<^verbatim>\<open>None\<close> nor empty, and a new empty dictionary otherwise.\<close>
  "ingest_file cfg e st p =
     (case process_document cfg e p of
        None \<Rightarrow> None
      | Some (Inl ex) \<Rightarrow> Some (Inl ex, st)
      | Some (Inr d) \<Rightarrow>
          if doc_chunks d = [] then Some (Inr 0, st)
          else
            (let aliased = (case caller_metadata st of
                              None \<Rightarrow> False | Some m \<Rightarrow> m \<noteq> []);
                 base_metadata =
                   dict_update (if aliased then the (caller_metadata st) else [])
                     (pipeline_metadata p d);
                 chunk_metadatas =
                   map (\<lambda>i. AList.update ''chunk_index'' (MInt (int i)) base_metadata)
                     [0 ..< length (doc_chunks d)];
                 (count, vs) =
                   add_documents e (vector_store st) (doc_chunks d)
                     (Some chunk_metadatas) (Some (chunk_ids p (length (doc_chunks d))))
             in Some (count,
                  \<lparr>vector_store = vs,
                   caller_metadata =
                     (if aliased then Some base_metadata else caller_metadata st)\<rparr>)))"

fun ingest_loop ::
  "settings \<Rightarrow> env \<Rightarrow> path list \<Rightarrow> int \<Rightarrow> string list \<Rightarrow> pipeline_state
     \<Rightarrow> (int \<times> string list \<times> pipeline_state) option" where
  \<comment> \<open>The loop of \<^verbatim>\<open>ingest_directory\<close> over the files, from the values of
      \<^verbatim>\<open>total_chunks\<close> and \<^verbatim>\<open>failed_files\<close> reached so far.\<close>
  "ingest_loop cfg e [] total_chunks failed_files st = Some (total_chunks, failed_files, st)"
| "ingest_loop cfg e (file_path # files) total_chunks failed_files st =
     (case ingest_file cfg e st file_path of
        None \<Rightarrow> None
      | Some (Inr count, st1) \<Rightarrow> ingest_loop cfg e files (total_chunks + count) failed_files st1
      | Some (Inl ex, st1) \<Rightarrow>
          ingest_loop cfg e files total_chunks (failed_files @ [path_str file_path]) st1)"

record directory_result =
  \<comment> \<open>The outcome of \<^verbatim>\<open>ingest_directory\<close>: what it returns or raises, the value of its local
      \<^verbatim>\<open>failed_files\<close> at the end, and the state it leaves.\<close>
  returned :: "exn + int"
  failures :: "string list"
  final_state :: pipeline_state

definition list_files :: "env \<Rightarrow> path \<Rightarrow> string list option \<Rightarrow> bool \<Rightarrow> path list" where
  \<comment> \<open>The matching files, pattern by pattern.\<close>
  "list_files e directory file_patterns recursive =
     (let pats = (case file_patterns of
                    None \<Rightarrow> [''*.pdf'', ''*.docx'', ''*.txt''] | Some ps \<Rightarrow> ps)
      in concat (map (\<lambda>pat. if recursive then rglob e directory pat
                            else glob e directory pat) pats))"

definition ingest_directory ::
  "settings \<Rightarrow> env \<Rightarrow> pipeline_state \<Rightarrow> path \<Rightarrow> string list option \<Rightarrow> bool
     \<Rightarrow> directory_result option" where
  "ingest_directory cfg e st directory file_patterns recursive =
     (let files = list_files e directory file_patterns recursive in
      if files = [] then Some \<lparr>returned = Inr 0, failures = [], final_state = st\<rparr>
      else
        (case ingest_loop cfg e files 0 [] st of
           None \<Rightarrow> None
         | Some (total_chunks, failed_files, st1) \<Rightarrow>
             Some \<lparr>returned = Inr total_chunks, failures = failed_files, final_state = st1\<rparr>))"

fun ingest_outcomes ::
  "settings \<Rightarrow> env \<Rightarrow> path list \<Rightarrow> pipeline_state \<Rightarrow> (exn + int) list option" where
  \<comment> \<open>What each call of \<^verbatim>\<open>ingest_file\<close> does when the files are ingested in this order from
      this state: \<^const>\<open>Inl\<close> it raises, \<^const>\<open>Inr\<close> it returns a count; \<^const>\<open>None\<close> when some
      call never returns.\<close>
  "ingest_outcomes cfg e [] st = Some []"
| "ingest_outcomes cfg e (file_path # files) st =
     (case ingest_file cfg e st file_path of
        None \<Rightarrow> None
      | Some (r, st1) \<Rightarrow> map_option ((#) r) (ingest_outcomes cfg e files st1))"

type_synonym ingest_result = "((exn + int) \<times> pipeline_state) option"

definition new_add_calls ::
  "pipeline_state \<Rightarrow> ingest_result
     \<Rightarrow> (string list \<times> metadata list option \<times> string list option) list" where
  \<comment> \<open>The calls of \<^verbatim>\<open>add_documents\<close> that a call of \<^verbatim>\<open>ingest_file\<close> started in state
      \<^verbatim>\<open>st\<close> has made; none when it never returns.\<close>
  "new_add_calls st r =
     (case r of
        None \<Rightarrow> []
      | Some (_, st1) \<Rightarrow>
          drop (length (add_calls (vector_store st))) (add_calls (vector_store st1)))"

definition passed_ids :: "pipeline_state \<Rightarrow> ingest_result \<Rightarrow> string list option list" where
  \<comment> \<open>The \<^verbatim>\<open>ids\<close> argument of each of those calls.\<close>
  "passed_ids st r = map (\<lambda>(chunks, metadatas, ids). ids) (new_add_calls st r)"

definition passed_metadatas :: "pipeline_state \<Rightarrow> ingest_result \<Rightarrow> metadata list" where
  \<comment> \<open>The per-chunk dictionaries passed as \<^verbatim>\<open>metadatas\<close> in those calls.\<close>
  "passed_metadatas st r =
     concat (map (\<lambda>(chunks, metadatas, ids). case metadatas of None \<Rightarrow> [] | Some ms \<Rightarrow> ms)
               (new_add_calls st r))"

definition pipeline_keys :: "string list" where
  \<comment> \<open>The keys that \<^verbatim>\<open>ingest_file\<close> writes into the base metadata.\<close>
  "pipeline_keys =
     [''source_file'', ''file_type'', ''file_name'', ''file_size'', ''num_chunks'',
      ''text_length'']"

definition chunk_metadatas_of :: "pipeline_state \<Rightarrow> path \<Rightarrow> doc_data \<Rightarrow> metadata list" where
  \<comment> \<open>The value of \<^verbatim>\<open>chunk_metadatas\<close> in \<^verbatim>\<open>ingest_file\<close>, for the document \<^verbatim>\<open>d\<close>.\<close>
  "chunk_metadatas_of st p d =
     map (\<lambda>i. AList.update ''chunk_index'' (MInt (int i))
                (dict_update (case caller_metadata st of None \<Rightarrow> [] | Some m \<Rightarrow> m)
                   (pipeline_metadata p d)))
       [0 ..< length (doc_chunks d)]"

section \<open>Concrete inputs\<close>

definition notes_txt :: path where
  "notes_txt = \<lparr>path_str = ''docs/notes.txt'', name = ''notes.txt'', stem = ''notes'',
                 suffix = ''.txt''\<rparr>"

definition broken_txt :: path where
  "broken_txt = \<lparr>path_str = ''docs/broken.txt'', name = ''broken.txt'', stem = ''broken'',
                  suffix = ''.txt''\<rparr>"

definition more_txt :: path where
  "more_txt = \<lparr>path_str = ''docs/more.txt'', name = ''more.txt'', stem = ''more'',
                suffix = ''.txt''\<rparr>"

definition blank_txt :: path where
  "blank_txt = \<lparr>path_str = ''docs/blank.txt'', name = ''blank.txt'', stem = ''blank'',
                 suffix = ''.txt''\<rparr>"

definition scan_pdf :: path where
  "scan_pdf = \<lparr>path_str = ''docs/scan.pdf'', name = ''scan.pdf'', stem = ''scan'',
                suffix = ''.pdf''\<rparr>"

definition lost_pdf :: path where
  "lost_pdf = \<lparr>path_str = ''docs/lost.pdf'', name = ''lost.pdf'', stem = ''lost'',
                suffix = ''.pdf''\<rparr>"

definition report_docx :: path where
  "report_docx = \<lparr>path_str = ''docs/report.DOCX'', name = ''report.DOCX'', stem = ''report'',
                   suffix = ''.DOCX''\<rparr>"

definition lost_txt :: path where
  "lost_txt = \<lparr>path_str = ''docs/lost.txt'', name = ''lost.txt'', stem = ''lost'',
                suffix = ''.txt''\<rparr>"

definition data_csv :: path where
  "data_csv = \<lparr>path_str = ''docs/data.csv'', name = ''data.csv'', stem = ''data'',
                suffix = ''.csv''\<rparr>"

definition my_notes_txt :: path where
  "my_notes_txt = \<lparr>path_str = ''docs/my notes.txt'', name = ''my notes.txt'',
                    stem = ''my notes'', suffix = ''.txt''\<rparr>"

definition torn_pdf :: path where
  "torn_pdf = \<lparr>path_str = ''docs/torn.pdf'', name = ''torn.pdf'', stem = ''torn'',
                suffix = ''.pdf''\<rparr>"

definition docs_dir :: path where
  "docs_dir = \<lparr>path_str = ''docs'', name = ''docs'', stem = ''docs'', suffix = []\<rparr>"

definition sample_env :: env where
  \<comment> \<open>A small world: readable text files, of which \<^verbatim>\<open>broken.txt\<close> cannot be
      \<^verbatim>\<open>stat\<close>ed and \<^verbatim>\<open>blank.txt\<close> is empty, a one-page PDF of 82 characters, and a
      three-page PDF whose second page cannot be extracted.\<close>
  "sample_env =
     \<lparr>pdf_reader = (\<lambda>p. if name p = ''scan.pdf'' then Inr [Inr (replicate 82 (CHR ''x''))]
                         else if name p = ''torn.pdf''
                         then Inr [Inr ''one'', Inl (PyException ''bad page''), Inr ''three'']
                         else Inl (PyException ''cannot open'')),
      docx_document = (\<lambda>p. Inl (PyException ''cannot open'')),
      read_file = (\<lambda>p. if name p = ''notes.txt'' then Inr ''hello''
                        else if name p = ''more.txt'' then Inr ''two words''
                        else if name p = ''broken.txt'' then Inr ''x''
                        else if name p = ''blank.txt'' then Inr []
                        else if name p = ''my notes.txt'' then Inr ''twelve chars''
                        else Inl (PyException ''cannot open'')),
      stat_size = (\<lambda>p. if name p = ''broken.txt'' then Inl (PyException ''stat failed'')
                        else Inr 5),
      convert_from_path = (\<lambda>p. Inr [0]),
      image_to_string = (\<lambda>i. Inr ''scanned''),
      encode = (\<lambda>ts. Inr (map (\<lambda>_. []) ts)),
      collection_add = (\<lambda>c r. (None, c @ [r])),
      collection_count = (\<lambda>c. sum_list (map (\<lambda>r. length (req_ids r)) c)),
      glob = (\<lambda>d pat. if pat = ''*.txt'' then [notes_txt, broken_txt, more_txt] else []),
      rglob = (\<lambda>d pat. if pat = ''*.txt'' then [notes_txt, broken_txt, more_txt] else [])\<rparr>"

definition empty_store :: vector_store where
  "empty_store = \<lparr>collection = [], add_calls = []\<rparr>"

definition fresh_state :: "metadata option \<Rightarrow> pipeline_state" where
  \<comment> \<open>An empty store, and the dictionary the caller passes.\<close>
  "fresh_state md = \<lparr>vector_store = empty_store, caller_metadata = md\<rparr>"

section \<open>Evaluation rules\<close>

lemmas py_defs =
  py_rfind_def py_slice_def py_adjust_index_def py_strip_def py_isspace_def py_or_def
  py_lower_def py_replace_def

lemmas sample_defs =
  sample_env_def notes_txt_def broken_txt_def more_txt_def blank_txt_def scan_pdf_def
  lost_pdf_def report_docx_def lost_txt_def data_csv_def docs_dir_def
  my_notes_txt_def torn_pdf_def tiny_settings_def
  empty_store_def fresh_state_def default_settings_def default_ocr_processor_def

lemmas extract_defs =
  extract_text_def extract_text_from_pdf_def extract_text_from_docx_def
  extract_text_from_txt_def

section \<open>The chunker: termination\<close>

text \<open>
  The loop never ends from a start position in a set of positions that all lie before the
  end of the text and that one pass of the loop maps into itself.
\<close>

lemma chunk_loop_never_returns:
  assumes start: "I st"
    and step: "\<And>st. I st \<Longrightarrow> st < int (length t) \<and> I (window_end t s st - ov)"
  shows "chunk_loop t s ov st acc = None"
proof (cases "chunk_loop t s ov st acc")
  case None
  then show ?thesis .
next
  case (Some y)
  have "\<not> (t = t \<and> s = s \<and> ov = ov \<and> I st)"
  proof (rule chunk_loop.raw_induct
      [where P = "\<lambda>t' s' ov' st' acc' y'. \<not> (t' = t \<and> s' = s \<and> ov' = ov \<and> I st')",
        OF _ Some])
    fix f :: "string \<Rightarrow> int \<Rightarrow> int \<Rightarrow> int \<Rightarrow> string list \<Rightarrow> string list option"
      and t' s' ov' st' acc' y'
    assume IH: "\<And>t' s' ov' st' acc' y'. f t' s' ov' st' acc' = Some y' \<Longrightarrow>
                  \<not> (t' = t \<and> s' = s \<and> ov' = ov \<and> I st')"
      and unfolded: "(if st' < int (length t')
                  then f t' s' ov' (window_end t' s' st' - ov')
                         (acc' @ [py_strip (py_slice t' st' (window_end t' s' st'))])
                  else Some acc') = Some y'"
    show "\<not> (t' = t \<and> s' = s \<and> ov' = ov \<and> I st')"
    proof
      assume bad: "t' = t \<and> s' = s \<and> ov' = ov \<and> I st'"
      with step [of st'] have lt: "st' < int (length t')"
        and next_bad: "I (window_end t s st' - ov)" by simp_all
      from unfolded lt bad
      have "f t s ov (window_end t s st' - ov)
              (acc' @ [py_strip (py_slice t' st' (window_end t' s' st'))]) = Some y'"
        by simp
      from IH [OF this] next_bad show False by simp
    qed
  qed
  with start show ?thesis by simp
qed

text \<open>
  On \<^verbatim>\<open>"a.bbbbbbbbbbb"\<close> with size 5 and overlap 2 the first window is cut after the
  period at index 1, so \<^verbatim>\<open>end = 2\<close> and \<^verbatim>\<open>start = end - 2 = 0\<close> again: the loop is back
  at the position it started from, with one more chunk \<^verbatim>\<open>"a."\<close> appended.
\<close>

lemma chunk_loop_stalls: "chunk_loop ''a.bbbbbbbbbbb'' 5 2 0 acc = None"
proof (rule chunk_loop_never_returns [where I = "\<lambda>st. st = 0"])
  show "(0::int) = 0" by simp
next
  fix st :: int
  assume "st = 0"
  then show "st < int (length ''a.bbbbbbbbbbb'') \<and> window_end ''a.bbbbbbbbbbb'' 5 st - 2 = 0"
    by (simp add: window_end_def py_defs)
qed

text \<open>
  An overlap argument of 0 is falsy, so \<^verbatim>\<open>chunk_overlap or settings.chunk_overlap\<close> takes the
  configured overlap, 200 by default; with a chunk size of 5 the start position then runs
  from 0 to -195 and stays at -200.
\<close>

lemma chunk_loop_runs_backwards: "chunk_loop ''abcdefghijkl'' 5 200 0 acc = None"
proof (rule chunk_loop_never_returns [where I = "\<lambda>st. st = 0 \<or> st = -195 \<or> st = -200"])
  show "(0::int) = 0 \<or> (0::int) = -195 \<or> (0::int) = -200" by simp
next
  fix st :: int
  assume "st = 0 \<or> st = -195 \<or> st = -200"
  then show "st < int (length ''abcdefghijkl'')
             \<and> (window_end ''abcdefghijkl'' 5 st - 200 = 0
                \<or> window_end ''abcdefghijkl'' 5 st - 200 = -195
                \<or> window_end ''abcdefghijkl'' 5 st - 200 = -200)"
    by (elim disjE) (simp_all add: window_end_def py_defs)
qed

lemma chunk_text_zero_overlap_never_returns:
  "chunk_text default_settings ''abcdefghijkl'' (Some 5) (Some 0) = None"
  by (simp add: chunk_text_def py_or_def default_settings_def chunk_loop_runs_backwards)

text \<open>
  C1. For every text longer than \<^verbatim>\<open>S\<close> and every overlap \<^verbatim>\<open>0 \<le> O < S\<close>, \<^verbatim>\<open>chunk_text\<close>
  terminates and every chunk has length at most \<^verbatim>\<open>S\<close>. The code does not: for the
  13-character text \<^verbatim>\<open>"a.bbbbbbbbbbb"\<close> with \<^verbatim>\<open>S = 5\<close> and \<^verbatim>\<open>O = 2\<close> the call never returns.
\<close>

theorem chunk_text_never_returns:
  "chunk_text default_settings ''a.bbbbbbbbbbb'' (Some 5) (Some 2) = None"
  by (simp add: chunk_text_def py_or_def chunk_loop_stalls)

section \<open>The chunker: chunk lengths\<close>

text \<open>
  Whenever the chunker returns, no chunk is longer than the chunk size: the slice
  \<^verbatim>\<open>text[start:end]\<close> has at most \<^verbatim>\<open>chunk_size\<close> characters, also for a negative
  \<^verbatim>\<open>start\<close>, and trimming only shortens it.
\<close>

lemma rindex_bounds: "- 1 \<le> rindex c xs \<and> rindex c xs < int (length xs)"
  by (induction xs) auto

lemma length_py_strip: "length (py_strip s) \<le> length s"
proof -
  have "length (dropWhile py_isspace (rev (dropWhile py_isspace s)))
          \<le> length (rev (dropWhile py_isspace s))"
    by (rule length_dropWhile_le)
  also have "\<dots> \<le> length s" by (simp add: length_dropWhile_le)
  finally show ?thesis by (simp add: py_strip_def)
qed

lemma adjust_index_int:
  "int (py_adjust_index n i) = (if i < 0 then max 0 (i + int n) else min i (int n))"
  by (simp add: py_adjust_index_def)

lemma adjust_index_le: "py_adjust_index n i \<le> n"
  unfolding py_adjust_index_def by auto

lemma int_length_py_slice:
  "int (length (py_slice t a b))
     = max 0 (int (py_adjust_index (length t) b) - int (py_adjust_index (length t) a))"
  using adjust_index_le [of "length t" b] adjust_index_le [of "length t" a]
  by (simp add: py_slice_def Let_def)

lemma adjust_index_diff:
  "0 \<le> s \<Longrightarrow> int (py_adjust_index n (st + s)) - int (py_adjust_index n st) \<le> s"
  unfolding adjust_index_int by (auto simp: max_def min_def)

lemma py_rfind_bounds:
  "py_rfind t c a b = - 1
   \<or> (int (py_adjust_index (length t) a) \<le> py_rfind t c a b
      \<and> py_rfind t c a b < int (py_adjust_index (length t) b))"
proof -
  let ?r = "rindex c (py_slice t a b)"
  from rindex_bounds [of c "py_slice t a b"]
  have "?r = -1 \<or> (0 \<le> ?r \<and> ?r < int (length (py_slice t a b)))" by auto
  then show ?thesis
    unfolding int_length_py_slice by (auto simp: py_rfind_def Let_def)
qed

lemma window_end_cases:
  "window_end t s st = st + s
   \<or> window_end t s st = 0
   \<or> (int (py_adjust_index (length t) st) < window_end t s st
      \<and> window_end t s st \<le> int (py_adjust_index (length t) (st + s)))"
proof -
  let ?p = "py_rfind t (CHR ''.'') st (st + s)"
  let ?q = "py_rfind t (CHR 0x0A) st (st + s)"
  from py_rfind_bounds [of t "CHR ''.''" st "st + s"] py_rfind_bounds [of t "CHR 0x0A" st "st + s"]
  have "max ?p ?q = - 1
        \<or> (int (py_adjust_index (length t) st) \<le> max ?p ?q
           \<and> max ?p ?q < int (py_adjust_index (length t) (st + s)))"
    by (auto simp: max_def)
  then show ?thesis
    by (auto simp: window_end_def Let_def)
qed

lemma window_slice_bound:
  assumes "0 \<le> s"
  shows "int (length (py_slice t st (window_end t s st))) \<le> s"
proof -
  let ?A = "\<lambda>i. int (py_adjust_index (length t) i)"
  from window_end_cases [of t s st]
  consider (raw) "window_end t s st = st + s"
    | (zero) "window_end t s st = 0"
    | (snap) "?A st < window_end t s st" "window_end t s st \<le> ?A (st + s)"
    by blast
  then show ?thesis
  proof cases
    case raw
    with adjust_index_diff [OF assms, of "length t" st] assms show ?thesis
      by (simp add: int_length_py_slice)
  next
    case zero
    with assms show ?thesis by (simp add: int_length_py_slice py_adjust_index_def)
  next
    case snap
    from snap have pos: "0 \<le> window_end t s st" by linarith
    from snap(2) adjust_index_le [of "length t" "st + s"]
    have "window_end t s st \<le> int (length t)" by linarith
    with pos have "?A (window_end t s st) = window_end t s st"
      by (simp add: adjust_index_int)
    with snap adjust_index_diff [OF assms, of "length t" st] assms show ?thesis
      by (simp add: int_length_py_slice)
  qed
qed

lemma chunk_loop_bounded:
  assumes "chunk_loop t s ov st acc = Some cs"
  shows "0 \<le> s \<longrightarrow> (\<forall>c \<in> set acc. int (length c) \<le> s) \<longrightarrow> (\<forall>c \<in> set cs. int (length c) \<le> s)"
proof (rule chunk_loop.raw_induct
    [where P = "\<lambda>t s ov st acc cs.
                  0 \<le> s \<longrightarrow> (\<forall>c \<in> set acc. int (length c) \<le> s)
                    \<longrightarrow> (\<forall>c \<in> set cs. int (length c) \<le> s)",
      OF _ assms])
  fix f :: "string \<Rightarrow> int \<Rightarrow> int \<Rightarrow> int \<Rightarrow> string list \<Rightarrow> string list option"
    and t s ov st acc cs
  assume IH: "\<And>t s ov st acc cs. f t s ov st acc = Some cs \<Longrightarrow>
                0 \<le> s \<longrightarrow> (\<forall>c \<in> set acc. int (length c) \<le> s)
                  \<longrightarrow> (\<forall>c \<in> set cs. int (length c) \<le> s)"
    and unfolded: "(if st < int (length t)
                then f t s ov (window_end t s st - ov)
                       (acc @ [py_strip (py_slice t st (window_end t s st))])
                else Some acc) = Some cs"
  show "0 \<le> s \<longrightarrow> (\<forall>c \<in> set acc. int (length c) \<le> s)
          \<longrightarrow> (\<forall>c \<in> set cs. int (length c) \<le> s)"
  proof (intro impI)
    assume s: "0 \<le> s" and acc: "\<forall>c \<in> set acc. int (length c) \<le> s"
    show "\<forall>c \<in> set cs. int (length c) \<le> s"
    proof (cases "st < int (length t)")
      case False
      with unfolded acc show ?thesis by simp
    next
      case True
      let ?c = "py_strip (py_slice t st (window_end t s st))"
      from True unfolded
      have call: "f t s ov (window_end t s st - ov) (acc @ [?c]) = Some cs" by simp
      have "int (length ?c) \<le> s"
        using length_py_strip [of "py_slice t st (window_end t s st)"]
          window_slice_bound [OF s, of t st] by linarith
      with acc have "\<forall>c \<in> set (acc @ [?c]). int (length c) \<le> s" by simp
      with IH [OF call] s show ?thesis by blast
    qed
  qed
qed

lemma chunk_text_chunks_bounded:
  assumes "chunk_text cfg t (Some S) ov = Some cs" and "0 < S"
  shows "\<forall>c \<in> set cs. int (length c) \<le> S"
proof (cases "int (length t) \<le> S")
  case True
  with assms show ?thesis by (auto simp: chunk_text_def py_or_def)
next
  case False
  with assms have "chunk_loop t S (py_or ov (chunk_overlap cfg)) 0 [] = Some cs"
    by (simp add: chunk_text_def py_or_def)
  from chunk_loop_bounded [OF this] assms(2) show ?thesis by simp
qed

section \<open>The chunker: short and empty texts\<close>

text \<open>
  C2, as amended. For the empty input text \<^verbatim>\<open>chunk_text\<close> returns the one-element sequence
  holding the empty string (whenever the chunk size in force is not negative); the empty
  sequence of chunks comes from \<^verbatim>\<open>process_document\<close>, which gives no chunks for an empty
  extracted text and does not call the chunker.
\<close>

theorem chunk_text_empty:
  "0 \<le> py_or size_arg (chunk_size cfg) \<Longrightarrow>
     chunk_text cfg [] size_arg overlap_arg = Some ['''']
     \<and> (extract_text e p = Inr [] \<longrightarrow>
          (\<exists>d. process_document cfg e p = Some (Inr d) \<and> doc_chunks d = []))"
  by (simp add: chunk_text_def process_document_def)

text \<open>The amended statement at the default configuration and the empty file \<^verbatim>\<open>blank.txt\<close>.\<close>

theorem chunk_text_empty_witness:
  "chunk_text default_settings [] None None = Some ['''']
   \<and> (\<exists>d. process_document default_settings sample_env blank_txt = Some (Inr d)
          \<and> doc_chunks d = [])"
proof -
  have size_ok: "0 \<le> py_or None (chunk_size default_settings)"
    by (simp add: py_or_def default_settings_def)
  have empty_text: "extract_text sample_env blank_txt = Inr []"
    by (simp add: extract_defs sample_defs py_defs)
  from chunk_text_empty [OF size_ok, of None sample_env blank_txt] empty_text
  show ?thesis by simp
qed

text \<open>
  The claim as stated fails: with the default configuration the chunker does not return the
  empty sequence for the empty text.
\<close>

theorem chunk_text_empty_counterexample:
  "chunk_text default_settings [] None None \<noteq> Some []"
  by (simp add: chunk_text_def py_or_def default_settings_def)

text \<open>
  C3, as amended. For every text \<^verbatim>\<open>t\<close> with \<^verbatim>\<open>len(t) \<le> S\<close>, where \<^verbatim>\<open>S\<close> is the chunk size in
  force, \<^verbatim>\<open>chunk_text\<close> returns exactly the one-element sequence \<^verbatim>\<open>[t]\<close>: the whole text,
  not trimmed.
\<close>

theorem chunk_text_short:
  "int (length t) \<le> py_or size_arg (chunk_size cfg) \<Longrightarrow>
     chunk_text cfg t size_arg overlap_arg = Some [t]"
  by (simp add: chunk_text_def)

text \<open>The amended statement on a two-character text with a leading space.\<close>

theorem chunk_text_short_witness:
  "int (length '' a'') \<le> py_or (Some 5) (chunk_size default_settings)
   \<and> chunk_text default_settings '' a'' (Some 5) (Some 1) = Some ['' a'']"
proof -
  have short: "int (length '' a'') \<le> py_or (Some 5) (chunk_size default_settings)"
    by (simp add: py_or_def)
  from short chunk_text_short [OF short, of "Some 1"] show ?thesis by simp
qed

text \<open>The claim as stated fails there: the chunk keeps its leading space.\<close>

theorem chunk_text_short_counterexample:
  "int (length '' a'') \<le> 5
   \<and> chunk_text default_settings '' a'' (Some 5) (Some 1) \<noteq> Some [py_strip '' a'']"
  by (simp add: chunk_text_def py_defs)

section \<open>The OCR fallback\<close>



section \<open>Text extraction never raises\<close>

lemma extract_text_returns: "\<exists>t. extract_text e p = Inr t"
  by (simp add: extract_defs Let_def split: sum.split)

lemma extract_text_unsupported:
  "py_lower (suffix p) \<notin> set [''.pdf'', ''.docx'', ''.doc'', ''.txt'']
     \<Longrightarrow> extract_text e p = Inr []"
  unfolding extract_text_def Let_def by simp

lemma extract_text_pdf_fails:
  "py_lower (suffix p) = ''.pdf'' \<Longrightarrow> isl (pdf_reader e p) \<Longrightarrow> extract_text e p = Inr []"
  unfolding extract_text_def Let_def extract_text_from_pdf_def
  by (cases "pdf_reader e p") auto

lemma extract_text_docx_fails:
  "py_lower (suffix p) \<in> set [''.docx'', ''.doc''] \<Longrightarrow> isl (docx_document e p)
     \<Longrightarrow> extract_text e p = Inr []"
  unfolding extract_text_def Let_def extract_text_from_docx_def
  by (cases "docx_document e p") auto

lemma extract_text_txt_fails:
  "py_lower (suffix p) = ''.txt'' \<Longrightarrow> isl (read_file e p) \<Longrightarrow> extract_text e p = Inr []"
  unfolding extract_text_def Let_def extract_text_from_txt_def
  by (cases "read_file e p") auto

lemma pdf_pages_loop_pages:
  "pdf_pages_loop pages k acc =
     acc @ concat (map (\<lambda>(n, pg). pdf_page_text n pg) (zip [k ..< k + length pages] pages))"
proof (induction pages arbitrary: k acc)
  case Nil
  show ?case by simp
next
  case (Cons pg pgs)
  have range: "[k ..< k + length (pg # pgs)] = k # [k + 1 ..< (k + 1) + length pgs]"
    by (simp add: upt_rec)
  show ?case
    unfolding range
    by (cases pg) (simp_all add: Cons.IH pdf_page_text_def)
qed

lemma extract_text_pdf_pages:
  "py_lower (suffix p) = ''.pdf'' \<Longrightarrow> pdf_reader e p = Inr pages \<Longrightarrow>
     extract_text e p =
       Inr (concat (map (\<lambda>(n, pg). pdf_page_text n pg) (zip [1 ..< 1 + length pages] pages)))"
  unfolding extract_text_def Let_def extract_text_from_pdf_def
  by (simp add: pdf_pages_loop_pages)

text \<open>
  C9, as amended. For every document of every kind, \<^verbatim>\<open>extract_text\<close> never raises. It
  returns the empty string when the kind is unsupported and when the reader of the file
  fails. When the reader of a PDF succeeds and the extraction of single pages fails, it
  returns the text of the other pages, each after its page marker, and leaves the failed
  pages out.
\<close>

theorem extract_text_never_raises:
  "(\<exists>t. extract_text e p = Inr t)
   \<and> (py_lower (suffix p) \<notin> set [''.pdf'', ''.docx'', ''.doc'', ''.txt'']
        \<longrightarrow> extract_text e p = Inr [])
   \<and> (py_lower (suffix p) = ''.pdf'' \<and> isl (pdf_reader e p) \<longrightarrow> extract_text e p = Inr [])
   \<and> (py_lower (suffix p) \<in> set [''.docx'', ''.doc''] \<and> isl (docx_document e p)
        \<longrightarrow> extract_text e p = Inr [])
   \<and> (py_lower (suffix p) = ''.txt'' \<and> isl (read_file e p) \<longrightarrow> extract_text e p = Inr [])
   \<and> (py_lower (suffix p) = ''.pdf'' \<and> pdf_reader e p = Inr pages
        \<longrightarrow> extract_text e p =
              Inr (concat (map (\<lambda>(n, pg). pdf_page_text n pg)
                             (zip [1 ..< 1 + length pages] pages))))"
  using extract_text_returns extract_text_unsupported extract_text_pdf_fails
    extract_text_docx_fails extract_text_txt_fails extract_text_pdf_pages
  by blast

text \<open>
  One file for each case: an unsupported kind, a PDF and a Word document whose readers
  raise, a text file that cannot be opened, and a PDF of three pages whose second page
  cannot be extracted.
\<close>

theorem extract_text_never_raises_witness:
  "extract_text sample_env data_csv = Inr []
   \<and> extract_text sample_env lost_pdf = Inr []
   \<and> extract_text sample_env report_docx = Inr []
   \<and> extract_text sample_env lost_txt = Inr []
   \<and> extract_text sample_env torn_pdf =
       Inr ([CHR 0x0A, CHR 0x0A] @ ''--- Page 1 ---'' @ [CHR 0x0A, CHR 0x0A] @ ''one''
            @ [CHR 0x0A, CHR 0x0A] @ ''--- Page 3 ---'' @ [CHR 0x0A, CHR 0x0A] @ ''three'')"
proof -
  let ?pages = "[Inr ''one'', Inl (PyException ''bad page''), Inr ''three'']"
  have h_csv: "py_lower (suffix data_csv) \<notin> set [''.pdf'', ''.docx'', ''.doc'', ''.txt'']"
    by (simp add: sample_defs py_defs)
  have h_pdf: "py_lower (suffix lost_pdf) = ''.pdf'' \<and> isl (pdf_reader sample_env lost_pdf)"
    by (simp add: sample_defs py_defs)
  have h_docx: "py_lower (suffix report_docx) \<in> set [''.docx'', ''.doc'']
              \<and> isl (docx_document sample_env report_docx)"
    by code_simp
  have h_txt: "py_lower (suffix lost_txt) = ''.txt'' \<and> isl (read_file sample_env lost_txt)"
    by (simp add: sample_defs py_defs)
  have h_torn: "py_lower (suffix torn_pdf) = ''.pdf'' \<and> pdf_reader sample_env torn_pdf = Inr ?pages"
    by (simp add: sample_defs py_defs)
  have pages_text:
    "concat (map (\<lambda>(n, pg). pdf_page_text n pg) (zip [1 ..< 1 + length ?pages] ?pages))
       = [CHR 0x0A, CHR 0x0A] @ ''--- Page 1 ---'' @ [CHR 0x0A, CHR 0x0A] @ ''one''
         @ [CHR 0x0A, CHR 0x0A] @ ''--- Page 3 ---'' @ [CHR 0x0A, CHR 0x0A] @ ''three''"
    by code_simp
  from h_csv extract_text_never_raises [of sample_env data_csv]
  have 1: "extract_text sample_env data_csv = Inr []" by blast
  from h_pdf extract_text_never_raises [of sample_env lost_pdf]
  have 2: "extract_text sample_env lost_pdf = Inr []" by blast
  from h_docx extract_text_never_raises [of sample_env report_docx]
  have 3: "extract_text sample_env report_docx = Inr []" by blast
  from h_txt extract_text_never_raises [of sample_env lost_txt]
  have 4: "extract_text sample_env lost_txt = Inr []" by blast
  from h_torn extract_text_never_raises [of sample_env torn_pdf ?pages]
  have "extract_text sample_env torn_pdf =
          Inr (concat (map (\<lambda>(n, pg). pdf_page_text n pg)
                         (zip [1 ..< 1 + length ?pages] ?pages)))"
    by blast
  with pages_text have 5: "extract_text sample_env torn_pdf =
       Inr ([CHR 0x0A, CHR 0x0A] @ ''--- Page 1 ---'' @ [CHR 0x0A, CHR 0x0A] @ ''one''
            @ [CHR 0x0A, CHR 0x0A] @ ''--- Page 3 ---'' @ [CHR 0x0A, CHR 0x0A] @ ''three'')"
    by (simp only:)
  from 1 2 3 4 5 show ?thesis by (intro conjI)
qed

text \<open>
  The claim as stated fails on that PDF: the extraction of its second page raises, which is an
  extraction failure, and the text returned is not empty.
\<close>

theorem extract_text_never_raises_counterexample:
  "pdf_reader sample_env torn_pdf
     = Inr [Inr ''one'', Inl (PyException ''bad page''), Inr ''three'']
   \<and> extract_text sample_env torn_pdf \<noteq> Inr []"
  by code_simp

section \<open>Ingestion of one file\<close>

text \<open>
  C8. For every document whose processing yields zero chunks, \<^verbatim>\<open>ingest_file\<close> returns 0
  without raising and without calling \<^verbatim>\<open>add_documents\<close>: the state it leaves, the store
  and its record of calls included, is the state it was given.
\<close>

theorem ingest_file_no_chunks:
  "process_document cfg e p = Some (Inr d) \<Longrightarrow> doc_chunks d = [] \<Longrightarrow>
     ingest_file cfg e st p = Some (Inr 0, st)"
  by (simp add: ingest_file_def)

text \<open>The empty file \<^verbatim>\<open>blank.txt\<close> is ingested as no chunks.\<close>

theorem ingest_file_no_chunks_witness:
  "ingest_file default_settings sample_env (fresh_state None) blank_txt
     = Some (Inr 0, fresh_state None)"
proof -
  have doc: "process_document default_settings sample_env blank_txt
               = Some (Inr \<lparr>doc_file_path = ''docs/blank.txt'', doc_file_name = ''blank.txt'',
                            doc_text = [], doc_chunks = [], doc_metadata = []\<rparr>)"
    by (simp add: process_document_def extract_defs sample_defs py_defs)
  show ?thesis by (rule ingest_file_no_chunks [OF doc]) simp
qed

section \<open>Dictionaries\<close>

lemma map_of_dict_update: "map_of (dict_update d other) = map_of d ++ map_of (rev other)"
  unfolding dict_update_def
proof (induction other arbitrary: d)
  case Nil
  show ?case by simp
next
  case (Cons x xs)
  obtain k v where x: "x = (k, v)" by (cases x)
  have "map_of (fold (\<lambda>(k, v). AList.update k v) (x # xs) d)
          = map_of (AList.update k v d) ++ map_of (rev xs)"
    using Cons.IH [of "AList.update k v d"] by (simp add: x)
  also have "\<dots> = map_of d ++ map_of (rev (x # xs))"
    by (simp add: x update_conv' map_add_upd_left)
  finally show ?case .
qed

lemma dict_update_other_key:
  "k \<notin> fst ` set other \<Longrightarrow> map_of (dict_update d other) k = map_of d k"
proof -
  assume "k \<notin> fst ` set other"
  then have "map_of (rev other) k = None"
    by (simp add: map_of_eq_None_iff)
  then show ?thesis
    by (simp add: map_of_dict_update map_add_def)
qed

section \<open>What ingest\_file passes to the vector store\<close>

lemma add_documents_calls:
  "add_calls (snd (add_documents e vs cs ms ids)) = add_calls vs @ [(cs, ms, ids)]"
  by (simp add: add_documents_def Let_def split: sum.split prod.split option.split)

lemma ingest_file_chunks:
  assumes "process_document cfg e p = Some (Inr d)" and "doc_chunks d \<noteq> []"
  shows "\<exists>r vs. add_documents e (vector_store st) (doc_chunks d)
                  (Some (chunk_metadatas_of st p d))
                  (Some (chunk_ids p (length (doc_chunks d)))) = (r, vs)
           \<and> ingest_file cfg e st p =
               Some (r, \<lparr>vector_store = vs,
                         caller_metadata =
                           (case caller_metadata st of
                              None \<Rightarrow> None
                            | Some m \<Rightarrow>
                                if m = [] then Some []
                                else Some (dict_update m (pipeline_metadata p d)))\<rparr>)"
  using assms
  by (cases "caller_metadata st")
     (auto simp: ingest_file_def chunk_metadatas_of_def Let_def split: prod.split)

lemma new_add_calls_ingest_file:
  "new_add_calls st (ingest_file cfg e st p) =
     (case process_document cfg e p of
        Some (Inr d) \<Rightarrow>
          if doc_chunks d = [] then []
          else [(doc_chunks d, Some (chunk_metadatas_of st p d),
                 Some (chunk_ids p (length (doc_chunks d))))]
      | _ \<Rightarrow> [])"
proof (cases "process_document cfg e p")
  case None
  then show ?thesis by (simp add: ingest_file_def new_add_calls_def)
next
  case (Some a)
  show ?thesis
  proof (cases a)
    case (Inl ex)
    with Some show ?thesis by (simp add: ingest_file_def new_add_calls_def)
  next
    case (Inr d)
    show ?thesis
    proof (cases "doc_chunks d = []")
      case True
      with Some Inr show ?thesis by (simp add: ingest_file_def new_add_calls_def)
    next
      case False
      from ingest_file_chunks [OF _ False, of cfg e p st] Some Inr
      obtain r vs where
        add: "add_documents e (vector_store st) (doc_chunks d)
                (Some (chunk_metadatas_of st p d))
                (Some (chunk_ids p (length (doc_chunks d)))) = (r, vs)"
        and ing: "map_option (vector_store \<circ> snd) (ingest_file cfg e st p) = Some vs"
        by auto
      from add_documents_calls [of e "vector_store st" "doc_chunks d"
          "Some (chunk_metadatas_of st p d)" "Some (chunk_ids p (length (doc_chunks d)))"] add
      have "add_calls vs = add_calls (vector_store st)
              @ [(doc_chunks d, Some (chunk_metadatas_of st p d),
                  Some (chunk_ids p (length (doc_chunks d))))]"
        by simp
      with ing Some Inr False show ?thesis
        by (auto simp: new_add_calls_def)
    qed
  qed
qed

lemma pipeline_metadata_value:
  assumes "process_document cfg e p = Some (Inr d)" and "doc_chunks d \<noteq> []"
  shows "\<exists>sz. stat_size e p = Inr sz
           \<and> pipeline_metadata p d =
               [(''source_file'', MStr (name p)), (''file_type'', MStr (suffix p)),
                (''file_name'', MStr (name p)), (''file_size'', MInt sz),
                (''num_chunks'', MInt (int (length (doc_chunks d)))),
                (''text_length'', MInt (int (length (doc_text d))))]"
  using assms
  by (auto simp: process_document_def pipeline_metadata_def dict_update_def
      split: sum.splits if_splits option.splits)

lemma pipeline_metadata_keys:
  assumes "process_document cfg e p = Some (Inr d)" and "doc_chunks d \<noteq> []"
  shows "fst ` set (pipeline_metadata p d) = set pipeline_keys"
  using pipeline_metadata_value [OF assms] by (auto simp: pipeline_keys_def)

lemma notes_fields:
  "name notes_txt = ''notes.txt''" "stem notes_txt = ''notes''" "suffix notes_txt = ''.txt''"
  by (simp_all add: notes_txt_def)

lemma notes_doc:
  "process_document default_settings sample_env notes_txt =
     Some (Inr \<lparr>doc_file_path = ''docs/notes.txt'', doc_file_name = ''notes.txt'',
                doc_text = ''hello'', doc_chunks = [''hello''],
                doc_metadata = [(''file_name'', MStr ''notes.txt''),
                                (''file_type'', MStr ''.txt''), (''file_size'', MInt 5),
                                (''num_chunks'', MInt 1), (''text_length'', MInt 5)]\<rparr>)"
  by (simp add: process_document_def extract_text_def extract_text_from_txt_def
      chunk_text_def sample_defs py_defs)

lemma passed_ids_ingest_file:
  "passed_ids st (ingest_file cfg e st p) =
     (case process_document cfg e p of
        Some (Inr d) \<Rightarrow>
          if doc_chunks d = [] then [] else [Some (chunk_ids p (length (doc_chunks d)))]
      | _ \<Rightarrow> [])"
  by (simp add: passed_ids_def new_add_calls_ingest_file split: option.split sum.split)

text \<open>
  C5, as amended. Ingesting the same file twice with the same chunking configuration
  produces identical chunk-identifier sequences: the identifiers passed to the store are
  \<^verbatim>\<open>"<file_id>_chunk_<i>"\<close> for \<^verbatim>\<open>i\<close> from 0 to the number of chunks less one, where
  \<^verbatim>\<open>file_id\<close> is the stem of the file name with every space replaced by an underscore,
  whatever the store and the caller's metadata are when the call starts.
\<close>

theorem ingest_file_chunk_ids:
  "passed_ids st (ingest_file cfg e st p) =
     (case process_document cfg e p of
        Some (Inr d) \<Rightarrow>
          if doc_chunks d = [] then []
          else [Some (map (\<lambda>i. map (\<lambda>c. if c = CHR '' '' then CHR ''_'' else c) (stem p)
                                  @ ''_chunk_'' @ str_nat i)
                        [0 ..< length (doc_chunks d)])]
      | _ \<Rightarrow> [])
   \<and> passed_ids st (ingest_file cfg e st p) = passed_ids st' (ingest_file cfg e st' p)"
  by (simp add: passed_ids_ingest_file chunk_ids_def py_replace_def
      split: option.split sum.split)

text \<open>
  The file \<^verbatim>\<open>my notes.txt\<close>, of twelve characters, cut into one-character chunks and
  ingested into an empty store, and again into the store that the first ingestion has left.
\<close>

theorem ingest_file_chunk_ids_witness:
  "passed_ids (fresh_state None)
     (ingest_file tiny_settings sample_env (fresh_state None) my_notes_txt)
     = [Some [''my_notes_chunk_0'', ''my_notes_chunk_1'', ''my_notes_chunk_2'',
              ''my_notes_chunk_3'', ''my_notes_chunk_4'', ''my_notes_chunk_5'',
              ''my_notes_chunk_6'', ''my_notes_chunk_7'', ''my_notes_chunk_8'',
              ''my_notes_chunk_9'', ''my_notes_chunk_10'', ''my_notes_chunk_11''] ]
   \<and> passed_ids
       (snd (the (ingest_file tiny_settings sample_env (fresh_state None) my_notes_txt)))
       (ingest_file tiny_settings sample_env
          (snd (the (ingest_file tiny_settings sample_env (fresh_state None) my_notes_txt)))
          my_notes_txt)
     = [Some [''my_notes_chunk_0'', ''my_notes_chunk_1'', ''my_notes_chunk_2'',
              ''my_notes_chunk_3'', ''my_notes_chunk_4'', ''my_notes_chunk_5'',
              ''my_notes_chunk_6'', ''my_notes_chunk_7'', ''my_notes_chunk_8'',
              ''my_notes_chunk_9'', ''my_notes_chunk_10'', ''my_notes_chunk_11''] ]"
proof -
  let ?ids = "[Some [''my_notes_chunk_0'', ''my_notes_chunk_1'', ''my_notes_chunk_2'',
                     ''my_notes_chunk_3'', ''my_notes_chunk_4'', ''my_notes_chunk_5'',
                     ''my_notes_chunk_6'', ''my_notes_chunk_7'', ''my_notes_chunk_8'',
                     ''my_notes_chunk_9'', ''my_notes_chunk_10'', ''my_notes_chunk_11''] ]"
  let ?st1 = "snd (the (ingest_file tiny_settings sample_env (fresh_state None) my_notes_txt))"
  have format:
    "(case process_document tiny_settings sample_env my_notes_txt of
        Some (Inr d) \<Rightarrow>
          if doc_chunks d = [] then []
          else [Some (map (\<lambda>i. map (\<lambda>c. if c = CHR '' '' then CHR ''_'' else c)
                                    (stem my_notes_txt)
                                  @ ''_chunk_'' @ str_nat i)
                        [0 ..< length (doc_chunks d)])]
      | _ \<Rightarrow> []) = ?ids"
    by code_simp
  from ingest_file_chunk_ids
    [of "fresh_state None" tiny_settings sample_env my_notes_txt ?st1]
  have first: "passed_ids (fresh_state None)
                 (ingest_file tiny_settings sample_env (fresh_state None) my_notes_txt)
               = (case process_document tiny_settings sample_env my_notes_txt of
                    Some (Inr d) \<Rightarrow>
                      if doc_chunks d = [] then []
                      else [Some (map (\<lambda>i. map (\<lambda>c. if c = CHR '' '' then CHR ''_'' else c)
                                                (stem my_notes_txt)
                                              @ ''_chunk_'' @ str_nat i)
                                    [0 ..< length (doc_chunks d)])]
                  | _ \<Rightarrow> [])"
    and again: "passed_ids (fresh_state None)
                  (ingest_file tiny_settings sample_env (fresh_state None) my_notes_txt)
                = passed_ids ?st1 (ingest_file tiny_settings sample_env ?st1 my_notes_txt)"
    by blast+
  from first format
  have one: "passed_ids (fresh_state None)
               (ingest_file tiny_settings sample_env (fresh_state None) my_notes_txt) = ?ids"
    by (simp only:)
  with again
  have two: "passed_ids ?st1 (ingest_file tiny_settings sample_env ?st1 my_notes_txt) = ?ids"
    by (simp only:)
  from one two show ?thesis by (intro conjI)
qed

text \<open>
  The claim as stated fails on that file with the default configuration: its stem has a
  space, and the identifier of its one chunk is not \<^verbatim>\<open>"my notes_chunk_0"\<close>, the stem
  followed by \<^verbatim>\<open>_chunk_0\<close>.
\<close>

theorem ingest_file_chunk_ids_counterexample:
  "passed_ids (fresh_state None)
     (ingest_file default_settings sample_env (fresh_state None) my_notes_txt)
     = [Some [''my_notes_chunk_0''] ]
   \<and> stem my_notes_txt @ ''_chunk_'' @ str_nat 0 = ''my notes_chunk_0''
   \<and> passed_ids (fresh_state None)
       (ingest_file default_settings sample_env (fresh_state None) my_notes_txt)
     \<noteq> [Some [stem my_notes_txt @ ''_chunk_'' @ str_nat 0] ]"
  by code_simp

text \<open>
  C6, as amended. For every caller-supplied metadata mapping \<^verbatim>\<open>m\<close> and every key \<^verbatim>\<open>k\<close>
  outside the keys the pipeline writes, which are \<^verbatim>\<open>source_file\<close>, \<^verbatim>\<open>file_type\<close>,
  \<^verbatim>\<open>file_name\<close>, \<^verbatim>\<open>file_size\<close>, \<^verbatim>\<open>num_chunks\<close>, \<^verbatim>\<open>text_length\<close> and
  \<^verbatim>\<open>chunk_index\<close>, each per-chunk metadata that \<^verbatim>\<open>ingest_file\<close> passes to
  \<^verbatim>\<open>add_documents\<close> has under \<^verbatim>\<open>k\<close> what \<^verbatim>\<open>m\<close> has.
\<close>

theorem caller_metadata_precedence:
  assumes "process_document cfg e p = Some (Inr d)" and "doc_chunks d \<noteq> []"
    and "caller_metadata st = Some m"
    and "k \<notin> set pipeline_keys" and "k \<noteq> ''chunk_index''"
  shows "length (passed_metadatas st (ingest_file cfg e st p)) = length (doc_chunks d)
         \<and> (\<forall>c \<in> set (passed_metadatas st (ingest_file cfg e st p)). map_of c k = map_of m k)"
proof -
  have passed: "passed_metadatas st (ingest_file cfg e st p) = chunk_metadatas_of st p d"
    using assms(1,2) by (simp add: passed_metadatas_def new_add_calls_ingest_file)
  have "k \<notin> fst ` set (pipeline_metadata p d)"
    using pipeline_metadata_keys [OF assms(1,2)] assms(4) by simp
  then have "map_of (dict_update m (pipeline_metadata p d)) k = map_of m k"
    by (rule dict_update_other_key)
  with assms(3,5) have "\<forall>c \<in> set (chunk_metadatas_of st p d). map_of c k = map_of m k"
    by (auto simp: chunk_metadatas_of_def update_conv')
  with passed show ?thesis by (simp add: chunk_metadatas_of_def)
qed

text \<open>A caller-supplied title on the one chunk of \<^verbatim>\<open>notes.txt\<close>.\<close>

theorem caller_metadata_precedence_witness:
  "length (passed_metadatas (fresh_state (Some [(''title'', MStr ''Bid'')]))
             (ingest_file default_settings sample_env
                (fresh_state (Some [(''title'', MStr ''Bid'')])) notes_txt)) = 1
   \<and> map_of (passed_metadatas (fresh_state (Some [(''title'', MStr ''Bid'')]))
               (ingest_file default_settings sample_env
                  (fresh_state (Some [(''title'', MStr ''Bid'')])) notes_txt) ! 0) ''title''
       = Some (MStr ''Bid'')"
proof -
  let ?st = "fresh_state (Some [(''title'', MStr ''Bid'')])"
  let ?passed = "passed_metadatas ?st (ingest_file default_settings sample_env ?st notes_txt)"
  have md: "caller_metadata ?st = Some [(''title'', MStr ''Bid'')]"
    by (simp add: fresh_state_def)
  have k1: "''title'' \<notin> set pipeline_keys" by (simp add: pipeline_keys_def)
  have k2: "''title'' \<noteq> ''chunk_index''" by simp
  from caller_metadata_precedence [OF notes_doc _ md k1 k2]
  have len: "length ?passed = 1"
    and all: "\<forall>c \<in> set ?passed. map_of c ''title'' = map_of [(''title'', MStr ''Bid'')] ''title''"
    by simp_all
  from len have "?passed ! 0 \<in> set ?passed" by simp
  with all have "map_of (?passed ! 0) ''title'' = Some (MStr ''Bid'')" by simp
  with len show ?thesis by simp
qed

text \<open>
  The claim as stated fails for the key \<^verbatim>\<open>file_type\<close>, which is neither \<^verbatim>\<open>source_file\<close>
  nor \<^verbatim>\<open>chunk_index\<close>: the caller's value \<^verbatim>\<open>"report"\<close> is replaced by the suffix of the
  file.
\<close>

theorem caller_metadata_precedence_counterexample:
  "''file_type'' \<notin> set [''source_file'', ''chunk_index'']
   \<and> map_of [(''file_type'', MStr ''report'')] ''file_type'' = Some (MStr ''report'')
   \<and> passed_metadatas (fresh_state (Some [(''file_type'', MStr ''report'')]))
        (ingest_file default_settings sample_env
           (fresh_state (Some [(''file_type'', MStr ''report'')])) notes_txt)
      = [ [(''file_type'', MStr ''.txt''), (''source_file'', MStr ''notes.txt''),
          (''file_name'', MStr ''notes.txt''), (''file_size'', MInt 5),
          (''num_chunks'', MInt 1), (''text_length'', MInt 5), (''chunk_index'', MInt 0)] ]"
  by (simp add: passed_metadatas_def new_add_calls_ingest_file notes_doc chunk_metadatas_of_def
      pipeline_metadata_def dict_update_def fresh_state_def notes_fields)

section \<open>The caller's dictionary\<close>

text \<open>
  C10, as amended. For every call of \<^verbatim>\<open>ingest_file\<close> with a metadata dictionary that is
  neither \<^verbatim>\<open>None\<close> nor empty, on a document yielding at least one chunk, the caller's
  dictionary is changed in place: after the call it holds the pipeline's values under
  \<^verbatim>\<open>source_file\<close>, \<^verbatim>\<open>file_type\<close>, \<^verbatim>\<open>file_name\<close>, \<^verbatim>\<open>file_size\<close>, \<^verbatim>\<open>num_chunks\<close> and
  \<^verbatim>\<open>text_length\<close>, whatever it held there before, and its other keys are as they were.
\<close>

theorem caller_metadata_mutated:
  assumes "process_document cfg e p = Some (Inr d)" and "doc_chunks d \<noteq> []"
    and "caller_metadata st = Some m" and "m \<noteq> []"
  shows "\<exists>r st1 m1 sz.
           ingest_file cfg e st p = Some (r, st1) \<and> caller_metadata st1 = Some m1
           \<and> stat_size e p = Inr sz
           \<and> map_of m1 ''source_file'' = Some (MStr (name p))
           \<and> map_of m1 ''file_type'' = Some (MStr (suffix p))
           \<and> map_of m1 ''file_name'' = Some (MStr (name p))
           \<and> map_of m1 ''file_size'' = Some (MInt sz)
           \<and> map_of m1 ''num_chunks'' = Some (MInt (int (length (doc_chunks d))))
           \<and> map_of m1 ''text_length'' = Some (MInt (int (length (doc_text d))))
           \<and> (\<forall>k. k \<notin> set pipeline_keys \<longrightarrow> map_of m1 k = map_of m k)"
proof -
  from ingest_file_chunks [OF assms(1,2), of st] assms(3,4)
  obtain r vs where ing:
    "ingest_file cfg e st p =
       Some (r, \<lparr>vector_store = vs,
                 caller_metadata = Some (dict_update m (pipeline_metadata p d))\<rparr>)"
    by auto
  from pipeline_metadata_value [OF assms(1,2)]
  obtain sz where sz: "stat_size e p = Inr sz"
    and pm: "pipeline_metadata p d =
               [(''source_file'', MStr (name p)), (''file_type'', MStr (suffix p)),
                (''file_name'', MStr (name p)), (''file_size'', MInt sz),
                (''num_chunks'', MInt (int (length (doc_chunks d)))),
                (''text_length'', MInt (int (length (doc_text d))))]"
    by blast
  let ?m1 = "dict_update m (pipeline_metadata p d)"
  have other: "\<forall>k. k \<notin> set pipeline_keys \<longrightarrow> map_of ?m1 k = map_of m k"
    using pipeline_metadata_keys [OF assms(1,2)] by (simp add: dict_update_other_key)
  have written:
    "map_of ?m1 ''source_file'' = Some (MStr (name p))"
    "map_of ?m1 ''file_type'' = Some (MStr (suffix p))"
    "map_of ?m1 ''file_name'' = Some (MStr (name p))"
    "map_of ?m1 ''file_size'' = Some (MInt sz)"
    "map_of ?m1 ''num_chunks'' = Some (MInt (int (length (doc_chunks d))))"
    "map_of ?m1 ''text_length'' = Some (MInt (int (length (doc_text d))))"
    by (simp_all add: map_of_dict_update pm)
  from ing sz other written show ?thesis by simp
qed

text \<open>A dictionary holding a title, passed with \<^verbatim>\<open>notes.txt\<close>.\<close>

theorem caller_metadata_mutated_witness:
  "\<exists>r st1 m1 sz.
     ingest_file default_settings sample_env (fresh_state (Some [(''title'', MStr ''Bid'')]))
       notes_txt = Some (r, st1)
     \<and> caller_metadata st1 = Some m1
     \<and> stat_size sample_env notes_txt = Inr sz
     \<and> map_of m1 ''source_file'' = Some (MStr ''notes.txt'')
     \<and> map_of m1 ''file_type'' = Some (MStr ''.txt'')
     \<and> map_of m1 ''file_name'' = Some (MStr ''notes.txt'')
     \<and> map_of m1 ''file_size'' = Some (MInt sz)
     \<and> map_of m1 ''num_chunks'' = Some (MInt 1)
     \<and> map_of m1 ''text_length'' = Some (MInt 5)
     \<and> map_of m1 ''title'' = Some (MStr ''Bid'')"
proof -
  have md: "caller_metadata (fresh_state (Some [(''title'', MStr ''Bid'')]))
              = Some [(''title'', MStr ''Bid'')]"
    by (simp add: fresh_state_def)
  have ne: "[(''title'', MStr ''Bid'')] \<noteq> []" by simp
  have k: "''title'' \<notin> set pipeline_keys" by (simp add: pipeline_keys_def)
  from caller_metadata_mutated [OF notes_doc _ md ne]
  obtain r st1 m1 sz where
    ing: "ingest_file default_settings sample_env
            (fresh_state (Some [(''title'', MStr ''Bid'')])) notes_txt = Some (r, st1)"
    and m1: "caller_metadata st1 = Some m1"
    and sz: "stat_size sample_env notes_txt = Inr sz"
    and written:
      "map_of m1 ''source_file'' = Some (MStr ''notes.txt'')"
      "map_of m1 ''file_type'' = Some (MStr ''.txt'')"
      "map_of m1 ''file_name'' = Some (MStr ''notes.txt'')"
      "map_of m1 ''file_size'' = Some (MInt sz)"
      "map_of m1 ''num_chunks'' = Some (MInt 1)"
      "map_of m1 ''text_length'' = Some (MInt 5)"
    and kept: "\<forall>k. k \<notin> set pipeline_keys
                 \<longrightarrow> map_of m1 k = map_of [(''title'', MStr ''Bid'')] k"
    by (auto simp: notes_fields)
  from kept k have "map_of m1 ''title'' = Some (MStr ''Bid'')" by simp
  with ing m1 sz written show ?thesis by blast
qed

text \<open>
  The claim as stated fails for the empty dictionary, which is not \<^verbatim>\<open>None\<close>: one chunk is
  ingested and the caller's dictionary is still empty afterwards.
\<close>

theorem caller_metadata_mutated_counterexample:
  "map_option fst
     (ingest_file default_settings sample_env (fresh_state (Some [])) notes_txt)
     = Some (Inr 1)
   \<and> map_option (caller_metadata \<circ> snd)
       (ingest_file default_settings sample_env (fresh_state (Some [])) notes_txt)
     = Some (Some [])"
  by code_simp

section \<open>Ingestion of a directory\<close>

lemma ingest_loop_outcomes:
  "ingest_outcomes cfg e files st = Some rs \<Longrightarrow>
     \<exists>st1. ingest_loop cfg e files tot failed st =
       Some (tot + sum_list (map projr (filter (Not \<circ> isl) rs)),
             failed @ map (path_str \<circ> fst) (filter (isl \<circ> snd) (zip files rs)), st1)"
proof (induction files arbitrary: st tot failed rs)
  case Nil
  then show ?case by simp
next
  case (Cons f fs)
  from Cons.prems obtain r st1 rs1 where
    step: "ingest_file cfg e st f = Some (r, st1)"
    and rest: "ingest_outcomes cfg e fs st1 = Some rs1"
    and rs: "rs = r # rs1"
    by (auto split: option.splits)
  show ?case
  proof (cases r)
    case (Inl ex)
    from Cons.IH [OF rest, of tot "failed @ [path_str f]"] step rs Inl
    show ?thesis by auto
  next
    case (Inr n)
    from Cons.IH [OF rest, of "tot + n" failed] step rs Inr
    show ?thesis by (auto simp: add.assoc)
  qed
qed

lemma ingest_outcomes_length:
  "ingest_outcomes cfg e files st = Some rs \<Longrightarrow> length rs = length files"
  by (induction files arbitrary: st rs) (auto split: option.splits)

text \<open>
  C7. For every directory with \<^verbatim>\<open>N\<close> matching files in which \<^verbatim>\<open>ingest_file\<close> raises for
  exactly one file and returns for the others, \<^verbatim>\<open>ingest_directory\<close> does not propagate the
  exception, returns the sum of the chunk counts of the other \<^verbatim>\<open>N - 1\<close> files, and has
  exactly one entry in its failure list.
\<close>

theorem ingest_directory_partial_failure:
  assumes "ingest_outcomes cfg e (list_files e dir pats recursive) st = Some rs"
    and "length (filter isl rs) = 1"
  shows "\<exists>res. ingest_directory cfg e st dir pats recursive = Some res
           \<and> returned res = Inr (sum_list (map projr (filter (Not \<circ> isl) rs)))
           \<and> length (filter (Not \<circ> isl) rs) = length (list_files e dir pats recursive) - 1
           \<and> length (failures res) = 1"
proof -
  let ?files = "list_files e dir pats recursive"
  from assms(2) have "rs \<noteq> []" by auto
  with ingest_outcomes_length [OF assms(1)] have files: "?files \<noteq> []" by auto
  from ingest_loop_outcomes [OF assms(1), of 0 "[]"] obtain st1 where
    loop: "ingest_loop cfg e ?files 0 [] st =
       Some (sum_list (map projr (filter (Not \<circ> isl) rs)),
             map (path_str \<circ> fst) (filter (isl \<circ> snd) (zip ?files rs)), st1)"
    by auto
  have "length (filter (isl \<circ> snd) (zip ?files rs)) = length (filter isl rs)"
    using ingest_outcomes_length [OF assms(1)]
    by (metis filter_map length_map map_snd_zip)
  with assms(2) have one: "length (filter (isl \<circ> snd) (zip ?files rs)) = 1" by simp
  have "length (filter (Not \<circ> isl) rs) + length (filter isl rs) = length rs"
    using sum_length_filter_compl [of isl rs] by (simp add: comp_def)
  with assms(2) ingest_outcomes_length [OF assms(1)]
  have others: "length (filter (Not \<circ> isl) rs) = length ?files - 1" by simp
  from files loop one others show ?thesis
    by (simp add: ingest_directory_def Let_def)
qed

text \<open>
  The directory \<^verbatim>\<open>docs\<close> lists three text files; \<^verbatim>\<open>broken.txt\<close> cannot be \<^verbatim>\<open>stat\<close>ed, so
  its ingestion raises, and the two others give one chunk each.
\<close>

theorem ingest_directory_partial_failure_witness:
  "\<exists>res. ingest_directory default_settings sample_env (fresh_state None) docs_dir None False
            = Some res
         \<and> returned res = Inr 2 \<and> length (failures res) = 1"
proof -
  have outcomes:
    "ingest_outcomes default_settings sample_env
       (list_files sample_env docs_dir None False) (fresh_state None)
       = Some [Inr 1, Inl (PyException ''stat failed''), Inr 1]"
    by code_simp
  have one: "length (filter isl [Inr 1, Inl (PyException ''stat failed''), Inr (1::int)]) = 1"
    by simp
  from ingest_directory_partial_failure [OF outcomes one] show ?thesis by auto
qed

end
